theory Spec2Isabelle
  imports Main "HOL-Library.AList" "HOL-Library.Sublist" "HOL-Library.Char_ord"
    "HOL-Library.List_Lexorder" "HOL-Library.Multiset"
begin

section \<open>The mock advertisement service (mock\_service.py)\<close>

text \<open>
  A shallow embedding of \<^verbatim>\<open>mock_service.py\<close>: the dataclasses \<^verbatim>\<open>Item\<close>, \<^verbatim>\<open>Stats\<close> and
  \<^verbatim>\<open>Storage\<close>, and the methods of \<^verbatim>\<open>Handler\<close>. One request is handled at a time: the
  interleaving of handler threads is outside the model.

  A Python \<^verbatim>\<open>str\<close> is a \<open>string\<close>, one \<open>char\<close> standing for one code point (so the model
  covers the code points below 256); \<^verbatim>\<open>len\<close> is \<open>length\<close> and the comparison of two
  \<^verbatim>\<open>str\<close> is the lexicographic order on \<open>char list\<close>.
\<close>

subsection \<open>Values and exceptions\<close>

text \<open>
  What \<^verbatim>\<open>json.loads\<close> returns: \<^verbatim>\<open>None\<close>, a \<^verbatim>\<open>bool\<close>, an \<^verbatim>\<open>int\<close>, a \<^verbatim>\<open>float\<close>
  (kept as its literal text: the service never computes with one), a \<^verbatim>\<open>str\<close>, a
  \<^verbatim>\<open>list\<close>, or a \<^verbatim>\<open>dict\<close> with its entries in insertion order.
\<close>

datatype json =
    JNull
  | JBool bool
  | JInt int
  | JFloat string
  | JStr string
  | JArr "json list"
  | JObj "(string \<times> json) list"

text \<open>The exceptions that leave a handler uncaught.\<close>

datatype py_error = AttributeError | TypeError | KeyError | AssertionError

text \<open>\<^verbatim>\<open>isinstance(v, str)\<close>, with the string when it holds.\<close>

fun as_str :: "json \<Rightarrow> string option" where
  "as_str (JStr s) = Some s"
| "as_str _ = None"

text \<open>
  \<^verbatim>\<open>isinstance(v, int)\<close>, with the integer when it holds. \<^verbatim>\<open>bool\<close> is a subclass of
  \<^verbatim>\<open>int\<close>: \<^verbatim>\<open>True\<close> counts as 1 and \<^verbatim>\<open>False\<close> as 0.
\<close>

fun as_int :: "json \<Rightarrow> int option" where
  "as_int (JInt n) = Some n"
| "as_int (JBool b) = Some (if b then 1 else 0)"
| "as_int _ = None"

subsection \<open>The dataclasses\<close>

record Item =
  id_field :: string
  title :: string
  description :: string
  price :: int
  sellerId :: int
  createdAt :: string

record Stats =
  itemId :: string
  views :: int
  contacts :: int
  favorites :: int

text \<open>
  A \<^verbatim>\<open>dict\<close> is an association list in insertion order; \<^verbatim>\<open>d[k] = v\<close> is
  \<^const>\<open>AList.update\<close>, which replaces the value of a present key in place and appends an
  absent one, and \<^verbatim>\<open>d.get(k)\<close> is \<^const>\<open>map_of\<close>.
\<close>

record Storage =
  items :: "(string \<times> Item) list"
  stats :: "(string \<times> Stats) list"
  counter :: int

definition Storage_init :: Storage where
  "Storage_init = \<lparr>items = [], stats = [], counter = 0\<rparr>"

definition Stats_init :: "string \<Rightarrow> Stats" where
  "Stats_init i = \<lparr>itemId = i, views = 0, contacts = 0, favorites = 0\<rparr>"

subsection \<open>\<^verbatim>\<open>str\<close> of an int and \<^verbatim>\<open>int\<close> of a str\<close>

definition digit_char :: "nat \<Rightarrow> char" where
  "digit_char d = char_of (48 + d)"

fun str_nat :: "nat \<Rightarrow> string" where
  "str_nat n = (if n < 10 then [digit_char n] else str_nat (n div 10) @ [digit_char (n mod 10)])"

declare str_nat.simps [simp del]

definition str_int :: "int \<Rightarrow> string" where
  "str_int n = (if n < 0 then CHR ''-'' # str_nat (nat (- n)) else str_nat (nat n))"

text \<open>
  The white space that \<^verbatim>\<open>int\<close> skips before and after the literal, among the code points
  below 256: tab to carriage return (9 to 13), the space (32), and the two that it turns
  into a space first, U+0085 and U+00A0. The separators 28 to 31, white space for
  \<^verbatim>\<open>str.isspace\<close>, are not skipped: \<^verbatim>\<open>int\<close> raises \<^verbatim>\<open>ValueError\<close> on them.
\<close>

definition is_space :: "char \<Rightarrow> bool" where
  "is_space c = (let n = (of_char c :: nat) in
     (9 \<le> n \<and> n \<le> 13) \<or> n = 32 \<or> n = 133 \<or> n = 160)"

text \<open>The literal without the white space around it.\<close>

definition strip :: "string \<Rightarrow> string" where
  "strip s = rev (dropWhile is_space (rev (dropWhile is_space s)))"

definition is_digit :: "char \<Rightarrow> bool" where
  "is_digit c = (let n = (of_char c :: nat) in 48 \<le> n \<and> n \<le> 57)"

definition digit_val :: "char \<Rightarrow> nat" where
  "digit_val c = of_char c - 48"

text \<open>
  The digits of an integer literal: at least one digit, single underscores between digits
  only. The flag says that the character before was a digit.
\<close>

fun parse_digits :: "bool \<Rightarrow> nat \<Rightarrow> string \<Rightarrow> nat option" where
  "parse_digits pd acc [] = (if pd then Some acc else None)"
| "parse_digits pd acc (c # cs) =
     (if is_digit c then parse_digits True (acc * 10 + digit_val c) cs
      else if c = CHR ''_'' \<and> pd then parse_digits False acc cs
      else None)"

text \<open>
  \<^verbatim>\<open>int(s)\<close> for a \<^verbatim>\<open>str\<close>: \<open>None\<close> is \<^verbatim>\<open>ValueError\<close>. The interpreter's limit on
  the number of digits (a \<^verbatim>\<open>ValueError\<close> too, where it applies) is not part of the model.
\<close>

definition py_int :: "string \<Rightarrow> int option" where
  "py_int s =
     (case strip s of
        [] \<Rightarrow> None
      | c # cs \<Rightarrow>
          if c = CHR ''-'' then map_option (\<lambda>n. - int n) (parse_digits False 0 cs)
          else if c = CHR ''+'' then map_option int (parse_digits False 0 cs)
          else map_option int (parse_digits False 0 (c # cs)))"

subsection \<open>Requests and responses\<close>

text \<open>
  The body of a request as \<^verbatim>\<open>_read_json\<close> meets it: no bytes at all, bytes on which
  \<^verbatim>\<open>json.loads\<close> raises \<^verbatim>\<open>JSONDecodeError\<close>, or bytes that it decodes to a value.
\<close>

datatype body = NoBody | Undecodable | Decoded json

text \<open>The payload of \<^verbatim>\<open>_json_response\<close>, one constructor per shape the handlers send.\<close>

datatype payload =
    Errors "string list"
  | ErrorMsg string
  | ItemP Item
  | ItemsP "Item list"
  | StatisticsP Stats

datatype response = JsonResponse int payload | SendError int string

fun status :: "response \<Rightarrow> int" where
  "status (JsonResponse s p) = s"
| "status (SendError s m) = s"

subsection \<open>\<^verbatim>\<open>Storage.next_id\<close>\<close>

definition next_id :: "Storage \<Rightarrow> string \<times> Storage" where
  "next_id st = (let st' = st\<lparr>counter := counter st + 1\<rparr> in (str_int (counter st'), st'))"

subsection \<open>\<^verbatim>\<open>Handler._read_json\<close>\<close>

fun read_json :: "body \<Rightarrow> json" where
  "read_json NoBody = JNull"
| "read_json Undecodable = JNull"
| "read_json (Decoded v) = v"

subsection \<open>\<^verbatim>\<open>Handler._validate_item\<close>\<close>

text \<open>\<^verbatim>\<open>payload.get(k, d)\<close> on a dict.\<close>

definition dict_get :: "(string \<times> json) list \<Rightarrow> string \<Rightarrow> json \<Rightarrow> json" where
  "dict_get kvs k d = (case map_of kvs k of None \<Rightarrow> d | Some v \<Rightarrow> v)"

definition missing_errors :: "(string \<times> json) list \<Rightarrow> string list" where
  "missing_errors kvs =
     map (\<lambda>field_name. ''missing field: '' @ field_name)
       (filter (\<lambda>field_name. map_of kvs field_name = None)
          [''title'', ''description'', ''price'', ''sellerId''])"

definition title_errors :: "json \<Rightarrow> string list" where
  "title_errors t =
     (if (case as_str t of None \<Rightarrow> True | Some s \<Rightarrow> s = [])
        then [''title must be non-empty string''] else [])
     @ (if (case as_str t of None \<Rightarrow> False | Some s \<Rightarrow> 255 < length s)
        then [''title too long''] else [])"

definition description_errors :: "json \<Rightarrow> string list" where
  "description_errors d =
     (if (case as_str d of None \<Rightarrow> True | Some s \<Rightarrow> s = [])
        then [''description must be non-empty string''] else [])
     @ (if (case as_str d of None \<Rightarrow> False | Some s \<Rightarrow> 2000 < length s)
        then [''description too long''] else [])"

definition price_errors :: "json \<Rightarrow> string list" where
  "price_errors p =
     (if (case as_int p of None \<Rightarrow> True | Some n \<Rightarrow> n \<le> 0)
        then [''price must be positive integer''] else [])"

definition seller_errors :: "json \<Rightarrow> string list" where
  "seller_errors s =
     (if (case as_int s of None \<Rightarrow> True | Some n \<Rightarrow> \<not> (111111 \<le> n \<and> n \<le> 999999))
        then [''sellerId must be int in range 111111-999999''] else [])"

text \<open>
  On a payload that is not a dict the method does not return: the membership test
  \<^verbatim>\<open>field_name not in payload\<close> raises \<^verbatim>\<open>TypeError\<close> on a number or a bool, and passes on
  a list or a str, where \<^verbatim>\<open>payload.get\<close> then raises \<^verbatim>\<open>AttributeError\<close>.
\<close>

fun validate_item :: "json \<Rightarrow> py_error + string list" where
  "validate_item JNull = Inr [''body must be JSON'']"
| "validate_item (JObj kvs) =
     Inr (missing_errors kvs
          @ title_errors (dict_get kvs ''title'' (JStr ''''))
          @ description_errors (dict_get kvs ''description'' (JStr ''''))
          @ price_errors (dict_get kvs ''price'' JNull)
          @ seller_errors (dict_get kvs ''sellerId'' JNull))"
| "validate_item (JArr xs) = Inl AttributeError"
| "validate_item (JStr s) = Inl AttributeError"
| "validate_item (JBool b) = Inl TypeError"
| "validate_item (JInt n) = Inl TypeError"
| "validate_item (JFloat f) = Inl TypeError"

subsection \<open>\<^verbatim>\<open>Handler._handle_create_item\<close>\<close>

text \<open>\<^verbatim>\<open>payload[k]\<close>: \<^verbatim>\<open>KeyError\<close> on a dict without the key, \<^verbatim>\<open>TypeError\<close> on anything
  that is not a dict.\<close>

fun subscript :: "json \<Rightarrow> string \<Rightarrow> py_error + json" where
  "subscript (JObj kvs) k = (case map_of kvs k of None \<Rightarrow> Inl KeyError | Some v \<Rightarrow> Inr v)"
| "subscript v k = Inl TypeError"

text \<open>
  The call \<^verbatim>\<open>Item(id=item_id, title=payload["title"], ...)\<close>. The fields of the record are
  typed as the dataclass declares them, so a value of another type has no place in it:
  the model gives \<^verbatim>\<open>TypeError\<close> there, which no payload that passed
  \<^verbatim>\<open>_validate_item\<close> reaches (lemma \<open>make_item_valid\<close>). A price of \<^verbatim>\<open>True\<close> is stored as
  the integer it equals, 1.
\<close>

definition make_item :: "string \<Rightarrow> string \<Rightarrow> json \<Rightarrow> py_error + Item" where
  "make_item item_id now payload =
     (case subscript payload ''title'' of Inl e \<Rightarrow> Inl e | Inr t \<Rightarrow>
      case subscript payload ''description'' of Inl e \<Rightarrow> Inl e | Inr d \<Rightarrow>
      case subscript payload ''price'' of Inl e \<Rightarrow> Inl e | Inr p \<Rightarrow>
      case subscript payload ''sellerId'' of Inl e \<Rightarrow> Inl e | Inr s \<Rightarrow>
      case (as_str t, as_str d, as_int p, as_int s) of
        (Some t', Some d', Some p', Some s') \<Rightarrow>
          Inr \<lparr>id_field = item_id, title = t', description = d', price = p',
               sellerId = s', createdAt = now\<rparr>
      | _ \<Rightarrow> Inl TypeError)"

text \<open>
  The handler, given the reading \<open>now\<close> of the clock
  (\<^verbatim>\<open>datetime.now(timezone.utc).isoformat()\<close>) and the body of the request. It returns
  the response, or the exception that leaves it, and the storage it leaves behind.
\<close>

definition handle_create_item ::
    "string \<Rightarrow> body \<Rightarrow> Storage \<Rightarrow> (py_error + response) \<times> Storage" where
  "handle_create_item now b st =
     (let payload = read_json b in
      case validate_item payload of
        Inl e \<Rightarrow> (Inl e, st)
      | Inr errors \<Rightarrow>
          if errors \<noteq> [] then (Inr (JsonResponse 400 (Errors errors)), st)
          else if payload = JNull then (Inl AssertionError, st)
          else
            (let (item_id, st1) = next_id st in
             case make_item item_id now payload of
               Inl e \<Rightarrow> (Inl e, st1)
             | Inr item \<Rightarrow>
                 (Inr (JsonResponse 201 (ItemP item)),
                  st1\<lparr>items := AList.update item_id item (items st1),
                      stats := AList.update item_id (Stats_init item_id) (stats st1)\<rparr>)))"

subsection \<open>The handlers of GET\<close>

definition handle_get_item :: "string \<Rightarrow> Storage \<Rightarrow> response" where
  "handle_get_item item_id st =
     (case map_of (items st) item_id of
        None \<Rightarrow> JsonResponse 404 (ErrorMsg ''item not found'')
      | Some item \<Rightarrow> JsonResponse 200 (ItemP item))"

definition handle_list_items :: "string option \<Rightarrow> Storage \<Rightarrow> response" where
  "handle_list_items seller st =
     (case (case seller of None \<Rightarrow> Some None | Some s \<Rightarrow> map_option Some (py_int s)) of
        None \<Rightarrow> JsonResponse 400 (ErrorMsg ''sellerId must be integer'')
      | Some None \<Rightarrow> JsonResponse 400 (ErrorMsg ''sellerId is required'')
      | Some (Some seller_id) \<Rightarrow>
          if \<not> (111111 \<le> seller_id \<and> seller_id \<le> 999999)
          then JsonResponse 400 (ErrorMsg ''sellerId must be in range 111111-999999'')
          else JsonResponse 200
                 (ItemsP (sort_key createdAt
                    (filter (\<lambda>item. sellerId item = seller_id) (map snd (items st))))))"

definition handle_stats :: "string \<Rightarrow> Storage \<Rightarrow> response" where
  "handle_stats item_id st =
     (case map_of (stats st) item_id of
        None \<Rightarrow> JsonResponse 404 (ErrorMsg ''stats not found'')
      | Some s \<Rightarrow> JsonResponse 200 (StatisticsP s))"

subsection \<open>\<^verbatim>\<open>do_POST\<close> and \<^verbatim>\<open>do_GET\<close>\<close>

text \<open>\<^verbatim>\<open>s.rstrip("/")\<close>\<close>

definition rstrip_slash :: "string \<Rightarrow> string" where
  "rstrip_slash s = rev (dropWhile (\<lambda>c. c = CHR ''/'') (rev s))"

text \<open>\<^verbatim>\<open>s.split(c)\<close>: never the empty list.\<close>

fun split_on :: "char \<Rightarrow> string \<Rightarrow> string list" where
  "split_on c [] = [[]]"
| "split_on c (x # xs) =
     (if x = c then [] # split_on c xs
      else (case split_on c xs of [] \<Rightarrow> [[x]] | y # ys \<Rightarrow> (x # y) # ys))"

text \<open>\<open>path\<close> is \<^verbatim>\<open>self.path\<close>, the request target as it was sent, query string included.\<close>

definition do_POST :: "string \<Rightarrow> string \<Rightarrow> body \<Rightarrow> Storage \<Rightarrow> (py_error + response) \<times> Storage" where
  "do_POST now path b st =
     (if rstrip_slash path = ''/api/1/item'' then handle_create_item now b st
      else (Inr (SendError 404 ''Not Found''), st))"

text \<open>
  \<open>path\<close> is \<^verbatim>\<open>urlparse(self.path).path\<close> and \<open>params\<close> is \<^verbatim>\<open>parse_qs(parsed.query)\<close>, a
  dict from a parameter's name to the list of its values: the two library calls are taken
  by their results.
\<close>

definition do_GET :: "string \<Rightarrow> (string \<times> string list) list \<Rightarrow> Storage \<Rightarrow> response" where
  "do_GET path params st =
     (if prefix ''/api/1/item/'' path then
        handle_get_item (last (split_on CHR ''/'' path)) st
      else if prefix ''/api/1/items'' path then
        (let seller_ids = map_of params ''sellerId'';
             seller = (case seller_ids of None \<Rightarrow> None | Some [] \<Rightarrow> None | Some (x # xs) \<Rightarrow> Some x)
         in handle_list_items seller st)
      else if prefix ''/api/1/statistics/'' path then
        handle_stats (last (split_on CHR ''/'' path)) st
      else SendError 404 ''Not Found'')"

subsection \<open>A run of the service\<close>

text \<open>
  A request: a POST with its target, its body and the clock reading at the time it is
  handled, or a GET with its parsed path and query. The service handles them one after the
  other, starting from \<^const>\<open>Storage_init\<close>; an exception ends the handler of that request
  only.
\<close>

datatype request = POST string body string | GET string "(string \<times> string list) list"

fun handle :: "request \<Rightarrow> Storage \<Rightarrow> (py_error + response) \<times> Storage" where
  "handle (POST path b now) st = do_POST now path b st"
| "handle (GET path params) st = (Inr (do_GET path params st), st)"

fun serve :: "request list \<Rightarrow> Storage \<Rightarrow> (py_error + response) list \<times> Storage" where
  "serve [] st = ([], st)"
| "serve (r # rs) st =
     (let (out, st1) = handle r st; (outs, st2) = serve rs st1 in (out # outs, st2))"

text \<open>The identifiers of the items a run has created, in the order of their responses.\<close>

fun created_id :: "py_error + response \<Rightarrow> string list" where
  "created_id (Inr (JsonResponse s (ItemP item))) = (if s = 201 then [id_field item] else [])"
| "created_id out = []"

definition created_ids :: "(py_error + response) list \<Rightarrow> string list" where
  "created_ids outs = concat (map created_id outs)"

subsection \<open>The invariant of the storage\<close>

text \<open>
  The two dicts have the same keys in the same order, no key twice, and each record
  carries the key it is stored under.
\<close>

definition store_inv :: "Storage \<Rightarrow> bool" where
  "store_inv st \<longleftrightarrow>
     map fst (items st) = map fst (stats st) \<and>
     distinct (map fst (items st)) \<and>
     (\<forall>(k, item) \<in> set (items st). id_field item = k) \<and>
     (\<forall>(k, s) \<in> set (stats st). itemId s = k)"

subsection \<open>Example data\<close>

text \<open>
  The payload of the tests' fixture \<^verbatim>\<open>sample_payload\<close>, as the entries of its dict, with
  the title and the seller left open, and the item that the service makes of it.
\<close>

definition sample_payload :: "string \<Rightarrow> int \<Rightarrow> (string \<times> json) list" where
  "sample_payload t s =
     [(''title'', JStr t), (''description'', JStr ''Mountain bike''), (''price'', JInt 15000),
      (''sellerId'', JInt s)]"

definition sample_item :: "string \<Rightarrow> string \<Rightarrow> int \<Rightarrow> string \<Rightarrow> Item" where
  "sample_item i t s now =
     \<lparr>id_field = i, title = t, description = ''Mountain bike'', price = 15000, sellerId = s,
      createdAt = now\<rparr>"

section \<open>Lemmas\<close>

subsection \<open>\<^verbatim>\<open>int(str(n)) == n\<close>\<close>

lemma of_char_digit_char: "d < 10 \<Longrightarrow> (of_char (digit_char d) :: nat) = 48 + d"
  by (simp add: digit_char_def)

lemma is_digit_digit_char: "d < 10 \<Longrightarrow> is_digit (digit_char d)"
  by (simp add: is_digit_def of_char_digit_char)

lemma digit_val_digit_char: "d < 10 \<Longrightarrow> digit_val (digit_char d) = d"
  by (simp add: digit_val_def of_char_digit_char)

lemma str_nat_digits: "c \<in> set (str_nat n) \<Longrightarrow> is_digit c"
proof (induction n arbitrary: c rule: str_nat.induct)
  case (1 n)
  show ?case
  proof (cases "n < 10")
    case True
    with "1.prems" show ?thesis
      by (simp add: str_nat.simps [of n] is_digit_digit_char)
  next
    case False
    with "1.prems" have "c \<in> set (str_nat (n div 10)) \<or> c = digit_char (n mod 10)"
      by (auto simp: str_nat.simps [of n])
    then show ?thesis
      using "1.IH" False by (auto simp: is_digit_digit_char)
  qed
qed

lemma str_nat_nonempty: "str_nat n \<noteq> []"
  by (simp add: str_nat.simps [of n])

lemma parse_all_digits:
  "(\<forall>c \<in> set ds. is_digit c) \<Longrightarrow> ds \<noteq> [] \<or> pd \<Longrightarrow>
   parse_digits pd acc ds = Some (foldl (\<lambda>a c. a * 10 + digit_val c) acc ds)"
  by (induction ds arbitrary: pd acc) auto

lemma value_str_nat: "foldl (\<lambda>a c. a * 10 + digit_val c) 0 (str_nat n) = n"
proof (induction n rule: str_nat.induct)
  case (1 n)
  show ?case
  proof (cases "n < 10")
    case True
    then show ?thesis by (simp add: str_nat.simps [of n] digit_val_digit_char)
  next
    case False
    then show ?thesis
      using "1.IH" by (simp add: str_nat.simps [of n] digit_val_digit_char)
  qed
qed

lemma parse_str_nat: "parse_digits False 0 (str_nat n) = Some n"
  using parse_all_digits [of "str_nat n" False 0] str_nat_digits str_nat_nonempty value_str_nat
  by simp

lemma digit_not_space: "is_digit c \<Longrightarrow> \<not> is_space c"
  by (auto simp: is_digit_def is_space_def Let_def)

lemma strip_id: "s \<noteq> [] \<Longrightarrow> \<not> is_space (hd s) \<Longrightarrow> \<not> is_space (last s) \<Longrightarrow> strip s = s"
proof -
  assume a: "s \<noteq> []" "\<not> is_space (hd s)" "\<not> is_space (last s)"
  then have "dropWhile is_space s = s" by (cases s) auto
  moreover have "dropWhile is_space (rev s) = rev s"
    using a by (cases "rev s") (auto simp: last_rev [symmetric] hd_rev)
  ultimately show ?thesis by (simp add: strip_def)
qed

lemma minus_not_space: "\<not> is_space CHR ''-''"
  by (simp add: is_space_def)

lemma strip_str_int: "strip (str_int n) = str_int n"
proof (rule strip_id)
  show "str_int n \<noteq> []" by (simp add: str_int_def str_nat_nonempty)
  show "\<not> is_space (hd (str_int n))"
    using str_nat_digits [of "hd (str_nat (nat n))" "nat n"] str_nat_nonempty [of "nat n"]
    by (auto simp: str_int_def minus_not_space digit_not_space)
  show "\<not> is_space (last (str_int n))"
    using str_nat_digits [of "last (str_nat (nat n))" "nat n"] str_nat_nonempty [of "nat n"]
      str_nat_digits [of "last (str_nat (nat (- n)))" "nat (- n)"] str_nat_nonempty [of "nat (- n)"]
    by (auto simp: str_int_def digit_not_space)
qed

lemma py_int_str_int: "py_int (str_int n) = Some n"
proof (cases "n < 0")
  case True
  then show ?thesis
    by (simp add: py_int_def strip_str_int) (simp add: str_int_def parse_str_nat)
next
  case False
  obtain c cs where cs: "str_nat (nat n) = c # cs"
    using str_nat_nonempty [of "nat n"] by (cases "str_nat (nat n)") auto
  have "is_digit c" using str_nat_digits [of c "nat n"] cs by simp
  then have "c \<noteq> CHR ''-''" "c \<noteq> CHR ''+''" by (auto simp: is_digit_def)
  moreover have "parse_digits False 0 (c # cs) = Some (nat n)"
    using parse_str_nat [of "nat n"] cs by simp
  ultimately show ?thesis
    using False cs by (simp add: py_int_def strip_str_int) (simp add: str_int_def)
qed

lemma str_int_inj: "str_int a = str_int b \<Longrightarrow> a = b"
proof -
  assume "str_int a = str_int b"
  then have "py_int (str_int a) = py_int (str_int b)" by (rule arg_cong)
  then show "a = b" by (simp only: py_int_str_int option.inject)
qed

lemma slash_not_digit: "\<not> is_digit CHR ''/''"
  by (simp add: is_digit_def)

lemma str_int_no_slash: "CHR ''/'' \<notin> set (str_int n)"
  using str_nat_digits [of "CHR ''/''"] slash_not_digit by (auto simp: str_int_def)


lemma py_int_tab_space: "py_int (CHR 0x09 # ''200000 '') = Some 200000"
  by (simp add: py_int_def strip_def is_space_def is_digit_def digit_val_def)

subsection \<open>The validator\<close>

lemma validate_item_valid:
  assumes "map_of kvs ''title'' = Some (JStr t)" "t \<noteq> []" "length t \<le> 255"
    and "map_of kvs ''description'' = Some (JStr d)" "d \<noteq> []" "length d \<le> 2000"
    and "map_of kvs ''price'' = Some (JInt p)" "0 < p"
    and "map_of kvs ''sellerId'' = Some (JInt s)" "111111 \<le> s" "s \<le> 999999"
  shows "validate_item (JObj kvs) = Inr []"
  using assms
  by (simp add: missing_errors_def title_errors_def description_errors_def price_errors_def
      seller_errors_def dict_get_def)

lemma validate_item_accepts:
  assumes "validate_item payload = Inr []"
  shows "\<exists>kvs t d pj p sj s. payload = JObj kvs \<and>
           map_of kvs ''title'' = Some (JStr t) \<and> t \<noteq> [] \<and> length t \<le> 255 \<and>
           map_of kvs ''description'' = Some (JStr d) \<and> d \<noteq> [] \<and> length d \<le> 2000 \<and>
           map_of kvs ''price'' = Some pj \<and> as_int pj = Some p \<and> 0 < p \<and>
           map_of kvs ''sellerId'' = Some sj \<and> as_int sj = Some s \<and> 111111 \<le> s \<and> s \<le> 999999"
proof (cases payload)
  case (JObj kvs)
  from assms JObj have m: "missing_errors kvs = []"
    and t: "title_errors (dict_get kvs ''title'' (JStr '''')) = []"
    and d: "description_errors (dict_get kvs ''description'' (JStr '''')) = []"
    and p: "price_errors (dict_get kvs ''price'' JNull) = []"
    and s: "seller_errors (dict_get kvs ''sellerId'' JNull) = []"
    by simp_all
  from m obtain tj dj pj sj where look: "map_of kvs ''title'' = Some tj"
      "map_of kvs ''description'' = Some dj" "map_of kvs ''price'' = Some pj"
      "map_of kvs ''sellerId'' = Some sj"
    by (auto simp: missing_errors_def split: if_splits)
  from t look obtain t' where "tj = JStr t'" "t' \<noteq> []" "length t' \<le> 255"
    by (cases tj) (auto simp: title_errors_def dict_get_def split: if_splits)
  moreover from d look obtain d' where "dj = JStr d'" "d' \<noteq> []" "length d' \<le> 2000"
    by (cases dj) (auto simp: description_errors_def dict_get_def split: if_splits)
  moreover from p look obtain p' where "as_int pj = Some p'" "0 < p'"
    by (cases "as_int pj") (auto simp: price_errors_def dict_get_def split: if_splits)
  moreover from s look obtain s' where "as_int sj = Some s'" "111111 \<le> s'" "s' \<le> 999999"
    by (cases "as_int sj") (auto simp: seller_errors_def dict_get_def split: if_splits)
  ultimately show ?thesis using JObj look by auto
qed (use assms in simp_all)

lemma make_item_valid:
  assumes "validate_item payload = Inr []"
  shows "\<exists>item. make_item i now payload = Inr item \<and> id_field item = i \<and> createdAt item = now"
proof -
  from validate_item_accepts [OF assms] obtain kvs t d pj p sj s where
    "payload = JObj kvs" "map_of kvs ''title'' = Some (JStr t)"
    "map_of kvs ''description'' = Some (JStr d)" "map_of kvs ''price'' = Some pj"
    "as_int pj = Some p" "map_of kvs ''sellerId'' = Some sj" "as_int sj = Some s"
    by blast
  then show ?thesis by (simp add: make_item_def)
qed

section \<open>The claims about the validator\<close>

text \<open>
  C9. A dict payload that lacks one of the four required fields gets two violations for
  that field: the one that names it as missing and the one of its type or value check,
  which runs on the default that \<^verbatim>\<open>payload.get\<close> supplies. The empty dict gets exactly
  eight violations, two per field.
\<close>

theorem missing_field_reported_twice:
  "(map_of kvs ''title'' = None \<longrightarrow>
      (\<exists>errors. validate_item (JObj kvs) = Inr errors \<and>
         ''missing field: title'' \<in> set errors \<and>
         ''title must be non-empty string'' \<in> set errors)) \<and>
   (map_of kvs ''description'' = None \<longrightarrow>
      (\<exists>errors. validate_item (JObj kvs) = Inr errors \<and>
         ''missing field: description'' \<in> set errors \<and>
         ''description must be non-empty string'' \<in> set errors)) \<and>
   (map_of kvs ''price'' = None \<longrightarrow>
      (\<exists>errors. validate_item (JObj kvs) = Inr errors \<and>
         ''missing field: price'' \<in> set errors \<and>
         ''price must be positive integer'' \<in> set errors)) \<and>
   (map_of kvs ''sellerId'' = None \<longrightarrow>
      (\<exists>errors. validate_item (JObj kvs) = Inr errors \<and>
         ''missing field: sellerId'' \<in> set errors \<and>
         ''sellerId must be int in range 111111-999999'' \<in> set errors)) \<and>
   validate_item (JObj []) =
     Inr [''missing field: title'', ''missing field: description'', ''missing field: price'',
          ''missing field: sellerId'', ''title must be non-empty string'',
          ''description must be non-empty string'', ''price must be positive integer'',
          ''sellerId must be int in range 111111-999999'']"
proof (intro conjI impI)
  assume "map_of kvs ''title'' = None"
  then show "\<exists>errors. validate_item (JObj kvs) = Inr errors \<and>
      ''missing field: title'' \<in> set errors \<and> ''title must be non-empty string'' \<in> set errors"
    by (simp add: missing_errors_def title_errors_def dict_get_def)
next
  assume "map_of kvs ''description'' = None"
  then show "\<exists>errors. validate_item (JObj kvs) = Inr errors \<and>
      ''missing field: description'' \<in> set errors \<and>
      ''description must be non-empty string'' \<in> set errors"
    by (simp add: missing_errors_def description_errors_def dict_get_def)
next
  assume "map_of kvs ''price'' = None"
  then show "\<exists>errors. validate_item (JObj kvs) = Inr errors \<and>
      ''missing field: price'' \<in> set errors \<and> ''price must be positive integer'' \<in> set errors"
    by (simp add: missing_errors_def price_errors_def dict_get_def)
next
  assume "map_of kvs ''sellerId'' = None"
  then show "\<exists>errors. validate_item (JObj kvs) = Inr errors \<and>
      ''missing field: sellerId'' \<in> set errors \<and>
      ''sellerId must be int in range 111111-999999'' \<in> set errors"
    by (simp add: missing_errors_def seller_errors_def dict_get_def)
next
  show "validate_item (JObj []) =
     Inr [''missing field: title'', ''missing field: description'', ''missing field: price'',
          ''missing field: sellerId'', ''title must be non-empty string'',
          ''description must be non-empty string'', ''price must be positive integer'',
          ''sellerId must be int in range 111111-999999'']"
    by (simp add: missing_errors_def title_errors_def description_errors_def price_errors_def
        seller_errors_def dict_get_def)
qed

theorem missing_field_reported_twice_witness:
  "map_of [(''description'', JStr ''d'')] ''title'' = None \<and>
   map_of [(''title'', JStr ''t'')] ''description'' = None \<and>
   map_of [(''title'', JStr ''t'')] ''price'' = None \<and>
   map_of [(''title'', JStr ''t'')] ''sellerId'' = None \<and>
   (\<exists>errors. validate_item (JObj [(''description'', JStr ''d'')]) = Inr errors \<and>
      ''missing field: title'' \<in> set errors \<and> ''title must be non-empty string'' \<in> set errors) \<and>
   (\<exists>errors. validate_item (JObj [(''title'', JStr ''t'')]) = Inr errors \<and>
      ''missing field: description'' \<in> set errors \<and>
      ''description must be non-empty string'' \<in> set errors) \<and>
   (\<exists>errors. validate_item (JObj [(''title'', JStr ''t'')]) = Inr errors \<and>
      ''missing field: price'' \<in> set errors \<and> ''price must be positive integer'' \<in> set errors) \<and>
   (\<exists>errors. validate_item (JObj [(''title'', JStr ''t'')]) = Inr errors \<and>
      ''missing field: sellerId'' \<in> set errors \<and>
      ''sellerId must be int in range 111111-999999'' \<in> set errors)"
proof -
  have a: "map_of [(''description'', JStr ''d'')] ''title'' = None" by simp
  have b: "map_of [(''title'', JStr ''t'')] ''description'' = None"
    "map_of [(''title'', JStr ''t'')] ''price'' = None"
    "map_of [(''title'', JStr ''t'')] ''sellerId'' = None" by simp_all
  show ?thesis
    using a b missing_field_reported_twice [of "[(''description'', JStr ''d'')]"]
      missing_field_reported_twice [of "[(''title'', JStr ''t'')]"]
    by blast
qed

text \<open>
  C2 (as stated). For some single input, such as a title that is a 260-character string,
  the violation of the "wrong type or empty" check and the violation of the "too long"
  check appear together in the validator's output. On the code they do not: the first
  check fires on a value that is not a str or is the empty str, the second on a str
  longer than the limit, and the 260-character title gets the second alone.
\<close>

theorem title_260_counterexample:
  "validate_item (JObj [(''title'', JStr (replicate 260 CHR ''a'')),
      (''description'', JStr ''d''), (''price'', JInt 15000), (''sellerId'', JInt 200000)])
   = Inr [''title too long'']"
  by (simp add: missing_errors_def title_errors_def description_errors_def price_errors_def
      seller_errors_def dict_get_def)

text \<open>
  C2 (amended). For the title, and in the same way for the description, the "wrong type
  or empty" check and the "too long" check are two separate checks that exclude each
  other: the validator never reports both for the same field, and a str longer than the
  limit gets the "too long" violation as the only one of the two.
\<close>

theorem title_checks_exclusive:
  "(validate_item payload = Inr errors \<longrightarrow>
      \<not> (''title must be non-empty string'' \<in> set errors \<and> ''title too long'' \<in> set errors) \<and>
      \<not> (''description must be non-empty string'' \<in> set errors \<and>
         ''description too long'' \<in> set errors)) \<and>
   (255 < length t \<longrightarrow> title_errors (JStr t) = [''title too long'']) \<and>
   (2000 < length d \<longrightarrow> description_errors (JStr d) = [''description too long''])"
proof (intro conjI impI)
  assume v: "validate_item payload = Inr errors"
  show "\<not> (''title must be non-empty string'' \<in> set errors \<and> ''title too long'' \<in> set errors)"
  proof (cases payload)
    case (JObj kvs)
    then have "errors = missing_errors kvs
          @ title_errors (dict_get kvs ''title'' (JStr ''''))
          @ description_errors (dict_get kvs ''description'' (JStr ''''))
          @ price_errors (dict_get kvs ''price'' JNull)
          @ seller_errors (dict_get kvs ''sellerId'' JNull)"
      using v by simp
    then show ?thesis
      by (cases "as_str (dict_get kvs ''title'' (JStr ''''))")
        (auto simp: missing_errors_def title_errors_def description_errors_def price_errors_def
          seller_errors_def split: if_splits)
  qed (use v in auto)
  show "\<not> (''description must be non-empty string'' \<in> set errors \<and>
         ''description too long'' \<in> set errors)"
  proof (cases payload)
    case (JObj kvs)
    then have "errors = missing_errors kvs
          @ title_errors (dict_get kvs ''title'' (JStr ''''))
          @ description_errors (dict_get kvs ''description'' (JStr ''''))
          @ price_errors (dict_get kvs ''price'' JNull)
          @ seller_errors (dict_get kvs ''sellerId'' JNull)"
      using v by simp
    then show ?thesis
      by (cases "as_str (dict_get kvs ''description'' (JStr ''''))")
        (auto simp: missing_errors_def title_errors_def description_errors_def price_errors_def
          seller_errors_def split: if_splits)
  qed (use v in auto)
next
  assume "255 < length t"
  then show "title_errors (JStr t) = [''title too long'']"
    by (auto simp: title_errors_def)
next
  assume "2000 < length d"
  then show "description_errors (JStr d) = [''description too long'']"
    by (auto simp: description_errors_def)
qed

theorem title_checks_exclusive_witness:
  "validate_item (JObj [(''title'', JStr (replicate 260 CHR ''a'')),
       (''description'', JStr (replicate 2100 CHR ''b'')), (''price'', JInt 15000),
       (''sellerId'', JInt 200000)])
     = Inr [''title too long'', ''description too long''] \<and>
   255 < length (replicate 260 CHR ''a'') \<and>
   2000 < length (replicate 2100 CHR ''b'') \<and>
   \<not> (''title must be non-empty string'' \<in> set [''title too long'', ''description too long''] \<and>
      ''title too long'' \<in> set [''title too long'', ''description too long'']) \<and>
   \<not> (''description must be non-empty string'' \<in> set [''title too long'', ''description too long''] \<and>
      ''description too long'' \<in> set [''title too long'', ''description too long'']) \<and>
   title_errors (JStr (replicate 260 CHR ''a'')) = [''title too long''] \<and>
   description_errors (JStr (replicate 2100 CHR ''b'')) = [''description too long'']"
proof -
  have v: "validate_item (JObj [(''title'', JStr (replicate 260 CHR ''a'')),
       (''description'', JStr (replicate 2100 CHR ''b'')), (''price'', JInt 15000),
       (''sellerId'', JInt 200000)])
     = Inr [''title too long'', ''description too long'']"
    by (simp add: missing_errors_def title_errors_def description_errors_def price_errors_def
      seller_errors_def dict_get_def)
  have l: "255 < length (replicate 260 CHR ''a'')" "2000 < length (replicate 2100 CHR ''b'')"
    by simp_all
  show ?thesis
    using v l title_checks_exclusive [of "JObj [(''title'', JStr (replicate 260 CHR ''a'')),
       (''description'', JStr (replicate 2100 CHR ''b'')), (''price'', JInt 15000),
       (''sellerId'', JInt 200000)]" "[''title too long'', ''description too long'']"
       "replicate 260 CHR ''a''" "replicate 2100 CHR ''b''"]
    by blast
qed

section \<open>Lemmas: the three ways out of \<^verbatim>\<open>_handle_create_item\<close>\<close>

lemma create_raises:
  "validate_item (read_json b) = Inl e \<Longrightarrow> handle_create_item now b st = (Inl e, st)"
  by (simp add: handle_create_item_def)

lemma create_rejected:
  "validate_item (read_json b) = Inr errors \<Longrightarrow> errors \<noteq> [] \<Longrightarrow>
   handle_create_item now b st = (Inr (JsonResponse 400 (Errors errors)), st)"
  by (simp add: handle_create_item_def)

lemma create_accepted:
  assumes "validate_item (read_json b) = Inr []"
  shows "\<exists>item. make_item (str_int (counter st + 1)) now (read_json b) = Inr item \<and>
           id_field item = str_int (counter st + 1) \<and> createdAt item = now \<and>
           handle_create_item now b st =
             (Inr (JsonResponse 201 (ItemP item)),
              st\<lparr>items := AList.update (str_int (counter st + 1)) item (items st),
                 stats := AList.update (str_int (counter st + 1))
                            (Stats_init (str_int (counter st + 1))) (stats st),
                 counter := counter st + 1\<rparr>)"
proof -
  from make_item_valid [OF assms, of "str_int (counter st + 1)" now]
  obtain item where item: "make_item (str_int (counter st + 1)) now (read_json b) = Inr item"
      "id_field item = str_int (counter st + 1)" "createdAt item = now"
    by blast
  have "read_json b \<noteq> JNull" using assms by auto
  with assms item show ?thesis
    by (simp add: handle_create_item_def next_id_def Let_def)
qed

lemma make_item_fields:
  assumes "map_of kvs ''title'' = Some (JStr t)" "map_of kvs ''description'' = Some (JStr d)"
    and "map_of kvs ''price'' = Some (JInt p)" "map_of kvs ''sellerId'' = Some (JInt s)"
  shows "make_item i now (JObj kvs) =
     Inr \<lparr>id_field = i, title = t, description = d, price = p, sellerId = s, createdAt = now\<rparr>"
  using assms by (simp add: make_item_def)

lemma create_cases:
  "(\<exists>e. handle_create_item now b st = (Inl e, st)) \<or>
   (\<exists>errors. handle_create_item now b st = (Inr (JsonResponse 400 (Errors errors)), st)) \<or>
   (\<exists>item. id_field item = str_int (counter st + 1) \<and>
      handle_create_item now b st =
        (Inr (JsonResponse 201 (ItemP item)),
         st\<lparr>items := AList.update (str_int (counter st + 1)) item (items st),
            stats := AList.update (str_int (counter st + 1))
                       (Stats_init (str_int (counter st + 1))) (stats st),
            counter := counter st + 1\<rparr>))"
proof (cases "validate_item (read_json b)")
  case (Inl e)
  then show ?thesis using create_raises by blast
next
  case (Inr errors)
  show ?thesis
  proof (cases "errors = []")
    case True
    with Inr create_accepted [of b st now] show ?thesis by blast
  next
    case False
    with Inr create_rejected [of b errors now st] show ?thesis by blast
  qed
qed

section \<open>The claims about creating an item\<close>

text \<open>
  C3. A create request whose body is missing, is not JSON, or is JSON but not an object
  is answered 400 with the single generic violation, with no field check and no crash. The
  code does so for a missing body, for bytes that are not JSON and for \<^verbatim>\<open>null\<close>; on a JSON
  array it leaves the handler with \<^verbatim>\<open>AttributeError\<close>, and on a JSON number with
  \<^verbatim>\<open>TypeError\<close>, so that no response is written.
\<close>

theorem create_non_object_body:
  "do_POST now ''/api/1/item'' NoBody st =
     (Inr (JsonResponse 400 (Errors [''body must be JSON''])), st) \<and>
   do_POST now ''/api/1/item'' Undecodable st =
     (Inr (JsonResponse 400 (Errors [''body must be JSON''])), st) \<and>
   do_POST now ''/api/1/item'' (Decoded JNull) st =
     (Inr (JsonResponse 400 (Errors [''body must be JSON''])), st) \<and>
   do_POST now ''/api/1/item'' (Decoded (JArr [])) st = (Inl AttributeError, st) \<and>
   do_POST now ''/api/1/item'' (Decoded (JStr ''abc'')) st = (Inl AttributeError, st) \<and>
   do_POST now ''/api/1/item'' (Decoded (JInt 5)) st = (Inl TypeError, st)"
  by (simp add: do_POST_def rstrip_slash_def handle_create_item_def)

text \<open>
  C7. With the other fields valid, a payload whose sellerId is 111111 or 999999 is
  accepted (201) and one whose sellerId is 111110 or 1000000 is rejected (400); a title of
  255 characters is accepted, and a title of 256 characters or the empty title is
  rejected (400).
\<close>

theorem create_boundaries:
  assumes "map_of kvs ''title'' = Some (JStr t)"
    and "map_of kvs ''description'' = Some (JStr d)" "d \<noteq> []" "length d \<le> 2000"
    and "map_of kvs ''price'' = Some (JInt p)" "0 < p"
    and "map_of kvs ''sellerId'' = Some (JInt s)"
  shows
    "(t \<noteq> [] \<and> length t \<le> 255 \<and> (s = 111111 \<or> s = 999999) \<longrightarrow>
        (\<exists>r. fst (do_POST now ''/api/1/item'' (Decoded (JObj kvs)) st) = Inr r \<and> status r = 201)) \<and>
     (s = 111110 \<or> s = 1000000 \<longrightarrow>
        (\<exists>r. fst (do_POST now ''/api/1/item'' (Decoded (JObj kvs)) st) = Inr r \<and> status r = 400)) \<and>
     (length t = 255 \<and> 111111 \<le> s \<and> s \<le> 999999 \<longrightarrow>
        (\<exists>r. fst (do_POST now ''/api/1/item'' (Decoded (JObj kvs)) st) = Inr r \<and> status r = 201)) \<and>
     (length t = 256 \<or> t = [] \<longrightarrow>
        (\<exists>r. fst (do_POST now ''/api/1/item'' (Decoded (JObj kvs)) st) = Inr r \<and> status r = 400))"
proof -
  have post: "do_POST now ''/api/1/item'' (Decoded (JObj kvs)) st =
      handle_create_item now (Decoded (JObj kvs)) st"
    by (simp add: do_POST_def rstrip_slash_def)
  have ok: "\<exists>r. fst (handle_create_item now (Decoded (JObj kvs)) st) = Inr r \<and> status r = 201"
    if "t \<noteq> []" "length t \<le> 255" "111111 \<le> s" "s \<le> 999999"
  proof -
    have "validate_item (read_json (Decoded (JObj kvs))) = Inr []"
      using validate_item_valid [of kvs t d p s] assms that by simp
    from create_accepted [OF this, of st now] show ?thesis by auto
  qed
  have bad: "\<exists>r. fst (handle_create_item now (Decoded (JObj kvs)) st) = Inr r \<and> status r = 400"
    if "t = [] \<or> 255 < length t \<or> s < 111111 \<or> 999999 < s"
  proof -
    have "\<exists>errors. validate_item (read_json (Decoded (JObj kvs))) = Inr errors \<and> errors \<noteq> []"
      using assms that
      by (auto simp: title_errors_def seller_errors_def dict_get_def)
    then obtain errors where "validate_item (read_json (Decoded (JObj kvs))) = Inr errors"
        "errors \<noteq> []" by blast
    from create_rejected [OF this, of now st] show ?thesis by simp
  qed
  show ?thesis
    unfolding post
  proof (intro conjI impI)
    assume "t \<noteq> [] \<and> length t \<le> 255 \<and> (s = 111111 \<or> s = 999999)"
    then show "\<exists>r. fst (handle_create_item now (Decoded (JObj kvs)) st) = Inr r \<and> status r = 201"
      using ok by auto
  next
    assume "s = 111110 \<or> s = 1000000"
    then show "\<exists>r. fst (handle_create_item now (Decoded (JObj kvs)) st) = Inr r \<and> status r = 400"
      using bad by auto
  next
    assume a: "length t = 255 \<and> 111111 \<le> s \<and> s \<le> 999999"
    then have "t \<noteq> []" "length t \<le> 255" by auto
    with a show "\<exists>r. fst (handle_create_item now (Decoded (JObj kvs)) st) = Inr r \<and> status r = 201"
      using ok by blast
  next
    assume "length t = 256 \<or> t = []"
    then show "\<exists>r. fst (handle_create_item now (Decoded (JObj kvs)) st) = Inr r \<and> status r = 400"
      using bad by auto
  qed
qed

theorem create_boundaries_witness:
  "(\<exists>r. fst (do_POST ''t1'' ''/api/1/item''
            (Decoded (JObj (sample_payload (replicate 255 CHR ''a'') 111111))) Storage_init) = Inr r \<and>
        status r = 201) \<and>
   (\<exists>r. fst (do_POST ''t1'' ''/api/1/item''
            (Decoded (JObj (sample_payload (replicate 255 CHR ''a'') 999999))) Storage_init) = Inr r \<and>
        status r = 201) \<and>
   (\<exists>r. fst (do_POST ''t1'' ''/api/1/item''
            (Decoded (JObj (sample_payload (replicate 255 CHR ''a'') 111110))) Storage_init) = Inr r \<and>
        status r = 400) \<and>
   (\<exists>r. fst (do_POST ''t1'' ''/api/1/item''
            (Decoded (JObj (sample_payload (replicate 255 CHR ''a'') 1000000))) Storage_init) = Inr r \<and>
        status r = 400) \<and>
   (\<exists>r. fst (do_POST ''t1'' ''/api/1/item''
            (Decoded (JObj (sample_payload (replicate 256 CHR ''a'') 111111))) Storage_init) = Inr r \<and>
        status r = 400) \<and>
   (\<exists>r. fst (do_POST ''t1'' ''/api/1/item''
            (Decoded (JObj (sample_payload [] 111111))) Storage_init) = Inr r \<and>
        status r = 400)"
proof (intro conjI)
  show "\<exists>r. fst (do_POST ''t1'' ''/api/1/item''
            (Decoded (JObj (sample_payload (replicate 255 CHR ''a'') 111111))) Storage_init) = Inr r \<and>
        status r = 201"
    using create_boundaries [of "sample_payload (replicate 255 CHR ''a'') 111111"
        "replicate 255 CHR ''a''" "''Mountain bike''" 15000 111111 "''t1''" Storage_init]
    by (simp add: sample_payload_def)
  show "\<exists>r. fst (do_POST ''t1'' ''/api/1/item''
            (Decoded (JObj (sample_payload (replicate 255 CHR ''a'') 999999))) Storage_init) = Inr r \<and>
        status r = 201"
    using create_boundaries [of "sample_payload (replicate 255 CHR ''a'') 999999"
        "replicate 255 CHR ''a''" "''Mountain bike''" 15000 999999 "''t1''" Storage_init]
    by (simp add: sample_payload_def)
  show "\<exists>r. fst (do_POST ''t1'' ''/api/1/item''
            (Decoded (JObj (sample_payload (replicate 255 CHR ''a'') 111110))) Storage_init) = Inr r \<and>
        status r = 400"
    using create_boundaries [of "sample_payload (replicate 255 CHR ''a'') 111110"
        "replicate 255 CHR ''a''" "''Mountain bike''" 15000 111110 "''t1''" Storage_init]
    by (simp add: sample_payload_def)
  show "\<exists>r. fst (do_POST ''t1'' ''/api/1/item''
            (Decoded (JObj (sample_payload (replicate 255 CHR ''a'') 1000000))) Storage_init) = Inr r \<and>
        status r = 400"
    using create_boundaries [of "sample_payload (replicate 255 CHR ''a'') 1000000"
        "replicate 255 CHR ''a''" "''Mountain bike''" 15000 1000000 "''t1''" Storage_init]
    by (simp add: sample_payload_def)
  show "\<exists>r. fst (do_POST ''t1'' ''/api/1/item''
            (Decoded (JObj (sample_payload (replicate 256 CHR ''a'') 111111))) Storage_init) = Inr r \<and>
        status r = 400"
    using create_boundaries [of "sample_payload (replicate 256 CHR ''a'') 111111"
        "replicate 256 CHR ''a''" "''Mountain bike''" 15000 111111 "''t1''" Storage_init]
    by (simp add: sample_payload_def)
  show "\<exists>r. fst (do_POST ''t1'' ''/api/1/item''
            (Decoded (JObj (sample_payload [] 111111))) Storage_init) = Inr r \<and>
        status r = 400"
    using create_boundaries [of "sample_payload [] 111111"
        "[]" "''Mountain bike''" 15000 111111 "''t1''" Storage_init]
    by (simp add: sample_payload_def)
qed

section \<open>Lemmas: paths\<close>

lemma items_not_item_slash: "prefix ''/api/1/items'' path \<Longrightarrow> \<not> prefix ''/api/1/item/'' path"
  by (auto simp: prefix_def)

lemma split_on_nonempty: "split_on c xs \<noteq> []"
  by (induction xs) (auto split: list.splits)

lemma split_on_absent: "c \<notin> set seg \<Longrightarrow> split_on c seg = [seg]"
  by (induction seg) auto

lemma split_on_two: "2 \<le> length (split_on c (p @ c # seg))"
proof (induction p)
  case Nil
  show ?case using split_on_nonempty [of c seg] by (cases "split_on c seg") auto
next
  case (Cons x p)
  then show ?case by (cases "split_on c (p @ c # seg)") auto
qed

lemma last_split_on: "last (split_on c (p @ c # seg)) = last (split_on c seg)"
proof (induction p)
  case Nil
  show ?case using split_on_nonempty [of c seg] by simp
next
  case (Cons x p)
  obtain y z zs where yz: "split_on c (p @ c # seg) = y # z # zs"
    using split_on_two [of c p seg]
    by (cases "split_on c (p @ c # seg)"; cases "tl (split_on c (p @ c # seg))") auto
  with Cons show ?case by auto
qed

lemma last_segment: "c \<notin> set seg \<Longrightarrow> last (split_on c (p @ c # seg)) = seg"
  by (simp add: last_split_on split_on_absent)

lemma rstrip_slash_replicate: "rstrip_slash (s @ replicate n CHR ''/'') = rstrip_slash s"
proof -
  have "dropWhile (\<lambda>c. c = CHR ''/'') (replicate n CHR ''/'' @ xs) = dropWhile (\<lambda>c. c = CHR ''/'') xs"
    for xs by (induction n) auto
  then show ?thesis by (simp add: rstrip_slash_def)
qed

lemma handle_list_items_json: "handle_list_items seller st \<noteq> SendError c m"
  by (auto simp: handle_list_items_def split: option.splits)

section \<open>The claims about the routes\<close>

text \<open>
  C10. GET routes are matched by prefix: every GET whose path starts with
  \<^verbatim>\<open>/api/1/items\<close> (such as \<^verbatim>\<open>/api/1/items/extra\<close>) goes to list-by-seller and not to the
  404 page; for every GET whose path starts with \<^verbatim>\<open>/api/1/item/\<close> the text after the last
  slash is the item id; and POST takes \<^verbatim>\<open>/api/1/item\<close> followed by any number of slashes as
  a create.
\<close>

theorem routes_by_prefix:
  "(prefix ''/api/1/items'' path \<longrightarrow>
      do_GET path params st =
        handle_list_items
          (case map_of params ''sellerId'' of None \<Rightarrow> None | Some [] \<Rightarrow> None
           | Some (x # xs) \<Rightarrow> Some x) st \<and>
      do_GET path params st \<noteq> SendError 404 ''Not Found'') \<and>
   (prefix ''/api/1/item/'' (p @ CHR ''/'' # seg) \<and> CHR ''/'' \<notin> set seg \<longrightarrow>
      do_GET (p @ CHR ''/'' # seg) params st = handle_get_item seg st) \<and>
   do_POST now (''/api/1/item'' @ replicate n CHR ''/'') b st = handle_create_item now b st"
proof (intro conjI impI)
  assume a: "prefix ''/api/1/items'' path"
  then show l: "do_GET path params st =
        handle_list_items
          (case map_of params ''sellerId'' of None \<Rightarrow> None | Some [] \<Rightarrow> None
           | Some (x # xs) \<Rightarrow> Some x) st"
    using items_not_item_slash [OF a] by (simp add: do_GET_def)
  show "do_GET path params st \<noteq> SendError 404 ''Not Found''"
    unfolding l by (rule handle_list_items_json)
next
  assume "prefix ''/api/1/item/'' (p @ CHR ''/'' # seg) \<and> CHR ''/'' \<notin> set seg"
  then show "do_GET (p @ CHR ''/'' # seg) params st = handle_get_item seg st"
    by (simp add: do_GET_def last_segment)
next
  have "rstrip_slash ''/api/1/item'' = ''/api/1/item''"
    by (simp add: rstrip_slash_def)
  then show "do_POST now (''/api/1/item'' @ replicate n CHR ''/'') b st = handle_create_item now b st"
    unfolding do_POST_def rstrip_slash_replicate by simp
qed

theorem routes_by_prefix_witness:
  "prefix ''/api/1/items'' ''/api/1/items/extra'' \<and>
   do_GET ''/api/1/items/extra'' [] Storage_init =
     JsonResponse 400 (ErrorMsg ''sellerId is required'') \<and>
   prefix ''/api/1/item/'' (''/api/1/item/a'' @ CHR ''/'' # ''b'') \<and> CHR ''/'' \<notin> set ''b'' \<and>
   do_GET ''/api/1/item/a/b'' [] Storage_init = handle_get_item ''b'' Storage_init"
proof -
  have a: "prefix ''/api/1/items'' ''/api/1/items/extra''" by simp
  have b: "prefix ''/api/1/item/'' (''/api/1/item/a'' @ CHR ''/'' # ''b'')" "CHR ''/'' \<notin> set ''b''"
    by simp_all
  have c: "handle_list_items None Storage_init = JsonResponse 400 (ErrorMsg ''sellerId is required'')"
    by (simp add: handle_list_items_def)
  show ?thesis
    using a b c routes_by_prefix [of "''/api/1/items/extra''" "[]" Storage_init "''/api/1/item/a''" "''b''"]
    by simp
qed




section \<open>The claim about listing\<close>



section \<open>The claim about create followed by get\<close>

lemma do_GET_item:
  assumes "CHR ''/'' \<notin> set seg"
  shows "do_GET (''/api/1/item/'' @ seg) params st = handle_get_item seg st"
proof -
  have e: "''/api/1/item/'' @ seg = ''/api/1/item'' @ CHR ''/'' # seg" by simp
  have "last (split_on CHR ''/'' (''/api/1/item'' @ CHR ''/'' # seg)) = seg"
    using assms by (rule last_segment)
  then have "last (split_on CHR ''/'' (''/api/1/item/'' @ seg)) = seg"
    by (simp only: e)
  moreover have "prefix ''/api/1/item/'' (''/api/1/item/'' @ seg)"
    by (rule prefixI) (rule refl)
  ultimately show ?thesis
    by (simp only: do_GET_def if_True)
qed

text \<open>
  C1. For every payload with valid fields, POST \<^verbatim>\<open>/api/1/item\<close> answers 201 with the new
  item, and GET \<^verbatim>\<open>/api/1/item/{id}\<close> with the id of that item then answers 200 with an item
  that has the title, description, price and sellerId of the payload.
\<close>

theorem create_then_get:
  assumes "map_of kvs ''title'' = Some (JStr t)" "t \<noteq> []" "length t \<le> 255"
    and "map_of kvs ''description'' = Some (JStr d)" "d \<noteq> []" "length d \<le> 2000"
    and "map_of kvs ''price'' = Some (JInt p)" "0 < p"
    and "map_of kvs ''sellerId'' = Some (JInt s)" "111111 \<le> s" "s \<le> 999999"
  shows "\<exists>item st' fetched.
           do_POST now ''/api/1/item'' (Decoded (JObj kvs)) st =
             (Inr (JsonResponse 201 (ItemP item)), st') \<and>
           do_GET (''/api/1/item/'' @ id_field item) params st' =
             JsonResponse 200 (ItemP fetched) \<and>
           fetched = item \<and>
           title fetched = t \<and> description fetched = d \<and> price fetched = p \<and>
           sellerId fetched = s"
proof -
  let ?i = "str_int (counter st + 1)"
  let ?item = "\<lparr>id_field = ?i, title = t, description = d, price = p, sellerId = s,
      createdAt = now\<rparr>"
  let ?st' = "st\<lparr>items := AList.update ?i ?item (items st),
                 stats := AList.update ?i (Stats_init ?i) (stats st),
                 counter := counter st + 1\<rparr>"
  have v: "validate_item (read_json (Decoded (JObj kvs))) = Inr []"
    using validate_item_valid [of kvs t d p s] assms by simp
  have m: "make_item ?i now (read_json (Decoded (JObj kvs))) = Inr ?item"
    using make_item_fields [of kvs t d p s ?i now] assms by simp
  have post: "do_POST now ''/api/1/item'' (Decoded (JObj kvs)) st =
      (Inr (JsonResponse 201 (ItemP ?item)), ?st')"
    using create_accepted [OF v, of st now] m by (simp add: do_POST_def rstrip_slash_def)
  have "do_GET (''/api/1/item/'' @ ?i) params ?st' = handle_get_item ?i ?st'"
    by (rule do_GET_item) (rule str_int_no_slash)
  moreover have "handle_get_item ?i ?st' = JsonResponse 200 (ItemP ?item)"
    by (simp add: handle_get_item_def update_conv')
  ultimately have get: "do_GET (''/api/1/item/'' @ id_field ?item) params ?st' =
      JsonResponse 200 (ItemP ?item)"
    by (simp only: Item.simps)
  show ?thesis
    using post get by (intro exI [of _ ?item] exI [of _ ?st']) simp
qed

theorem create_then_get_witness:
  "map_of (sample_payload ''Bike'' 200000) ''title'' = Some (JStr ''Bike'') \<and>
   ''Bike'' \<noteq> [] \<and> length ''Bike'' \<le> 255 \<and>
   map_of (sample_payload ''Bike'' 200000) ''description'' = Some (JStr ''Mountain bike'') \<and>
   ''Mountain bike'' \<noteq> [] \<and> length ''Mountain bike'' \<le> 2000 \<and>
   map_of (sample_payload ''Bike'' 200000) ''price'' = Some (JInt 15000) \<and> (0 :: int) < 15000 \<and>
   map_of (sample_payload ''Bike'' 200000) ''sellerId'' = Some (JInt 200000) \<and>
   (111111 :: int) \<le> 200000 \<and> (200000 :: int) \<le> 999999 \<and>
   (\<exists>item st' fetched.
      do_POST ''t1'' ''/api/1/item'' (Decoded (JObj (sample_payload ''Bike'' 200000))) Storage_init =
        (Inr (JsonResponse 201 (ItemP item)), st') \<and>
      do_GET (''/api/1/item/'' @ id_field item) [] st' = JsonResponse 200 (ItemP fetched) \<and>
      fetched = item \<and>
      title fetched = ''Bike'' \<and> description fetched = ''Mountain bike'' \<and>
      price fetched = 15000 \<and> sellerId fetched = 200000)"
proof -
  have t: "map_of (sample_payload ''Bike'' 200000) ''title'' = Some (JStr ''Bike'')"
    "''Bike'' \<noteq> []" "length ''Bike'' \<le> 255"
    by (simp_all add: sample_payload_def)
  have d: "map_of (sample_payload ''Bike'' 200000) ''description'' = Some (JStr ''Mountain bike'')"
    "''Mountain bike'' \<noteq> []" "length ''Mountain bike'' \<le> 2000"
    by (simp_all add: sample_payload_def)
  have p: "map_of (sample_payload ''Bike'' 200000) ''price'' = Some (JInt 15000)" "(0 :: int) < 15000"
    by (simp_all add: sample_payload_def)
  have s: "map_of (sample_payload ''Bike'' 200000) ''sellerId'' = Some (JInt 200000)"
    "(111111 :: int) \<le> 200000" "(200000 :: int) \<le> 999999"
    by (simp_all add: sample_payload_def)
  from create_then_get [OF t d p s, of "''t1''" Storage_init "[]"]
  show ?thesis using t d p s by blast
qed

section \<open>Lemmas: one step of the service\<close>

lemma handle_cases:
  "(snd (handle r st) = st \<and> created_id (fst (handle r st)) = []) \<or>
   (\<exists>item. fst (handle r st) = Inr (JsonResponse 201 (ItemP item)) \<and>
      id_field item = str_int (counter st + 1) \<and>
      snd (handle r st) =
        st\<lparr>items := AList.update (str_int (counter st + 1)) item (items st),
           stats := AList.update (str_int (counter st + 1))
                      (Stats_init (str_int (counter st + 1))) (stats st),
           counter := counter st + 1\<rparr>)"
proof (cases r)
  case (POST path b now)
  show ?thesis
  proof (cases "rstrip_slash path = ''/api/1/item''")
    case True
    then have "handle r st = handle_create_item now b st"
      using POST by (simp add: do_POST_def)
    then show ?thesis
      using create_cases [of now b st] by auto
  next
    case False
    then show ?thesis using POST by (simp add: do_POST_def)
  qed
next
  case (GET path params)
  then show ?thesis
    by (cases "do_GET path params st")
      (auto simp: do_GET_def handle_get_item_def handle_list_items_def handle_stats_def
        split: if_splits option.splits list.splits)
qed

lemma store_inv_init: "store_inv Storage_init"
  by (simp add: store_inv_def Storage_init_def)

lemma update_keys_same:
  "map fst xs = map fst ys \<Longrightarrow> map fst (AList.update k v xs) = map fst (AList.update k w ys)"
  by (simp add: update_keys)

lemma update_values_inv:
  "\<forall>(k, v) \<in> set xs. f v = k \<Longrightarrow> f v' = k' \<Longrightarrow> \<forall>(k, v) \<in> set (AList.update k' v' xs). f v = k"
  by (induction xs) (auto split: if_splits)

lemma store_inv_step: "store_inv st \<Longrightarrow> store_inv (snd (handle r st))"
proof -
  assume inv: "store_inv st"
  from handle_cases [of r st] show ?thesis
  proof
    assume "snd (handle r st) = st \<and> created_id (fst (handle r st)) = []"
    with inv show ?thesis by simp
  next
    assume "\<exists>item. fst (handle r st) = Inr (JsonResponse 201 (ItemP item)) \<and>
      id_field item = str_int (counter st + 1) \<and>
      snd (handle r st) =
        st\<lparr>items := AList.update (str_int (counter st + 1)) item (items st),
           stats := AList.update (str_int (counter st + 1))
                      (Stats_init (str_int (counter st + 1))) (stats st),
           counter := counter st + 1\<rparr>"
    then obtain item where i: "id_field item = str_int (counter st + 1)"
      and s: "snd (handle r st) =
        st\<lparr>items := AList.update (str_int (counter st + 1)) item (items st),
           stats := AList.update (str_int (counter st + 1))
                      (Stats_init (str_int (counter st + 1))) (stats st),
           counter := counter st + 1\<rparr>"
      by blast
    have si: "itemId (Stats_init (str_int (counter st + 1))) = str_int (counter st + 1)"
      by (simp add: Stats_init_def)
    let ?k = "str_int (counter st + 1)"
    from inv have k: "map fst (items st) = map fst (stats st)"
      and d: "distinct (map fst (items st))"
      and vi: "\<forall>(k, item) \<in> set (items st). id_field item = k"
      and vs: "\<forall>(k, s) \<in> set (stats st). itemId s = k"
      unfolding store_inv_def by blast+
    have "map fst (AList.update ?k item (items st)) =
        map fst (AList.update ?k (Stats_init ?k) (stats st))"
      using k by (rule update_keys_same)
    moreover have "distinct (map fst (AList.update ?k item (items st)))"
      using d by (rule distinct_update)
    moreover have "\<forall>(k, item) \<in> set (AList.update ?k item (items st)). id_field item = k"
      using vi i by (rule update_values_inv)
    moreover have "\<forall>(k, s) \<in> set (AList.update ?k (Stats_init ?k) (stats st)). itemId s = k"
      using vs si by (rule update_values_inv)
    ultimately show ?thesis
      unfolding s store_inv_def by simp
  qed
qed

lemma store_inv_serve: "store_inv st \<Longrightarrow> store_inv (snd (serve rs st))"
proof (induction rs arbitrary: st)
  case Nil
  then show ?case by simp
next
  case (Cons r rs)
  from Cons.IH [OF store_inv_step [OF Cons.prems, of r]]
  show ?case by (simp add: split_beta Let_def)
qed

lemma store_inv_one_stats:
  assumes "store_inv st" and "(k, item) \<in> set (items st)"
  shows "\<exists>!s. (k, s) \<in> set (stats st)"
proof -
  from assms have "k \<in> set (map fst (stats st))"
    unfolding store_inv_def by (metis fst_conv image_eqI set_map)
  then obtain s where s: "(k, s) \<in> set (stats st)" by auto
  from assms(1) have "distinct (map fst (stats st))"
    unfolding store_inv_def by metis
  then have "s' = s" if "(k, s') \<in> set (stats st)" for s'
    using that s by (rule eq_key_imp_eq_value)
  with s show ?thesis by blast
qed

lemma created_stats:
  assumes "fst (handle r st) = Inr (JsonResponse 201 (ItemP item))"
  shows "handle_stats (id_field item) (snd (handle r st)) =
     JsonResponse 200 (StatisticsP \<lparr>itemId = id_field item, views = 0, contacts = 0, favorites = 0\<rparr>)"
proof -
  from handle_cases [of r st] assms
  have "id_field item = str_int (counter st + 1) \<and>
      snd (handle r st) =
        st\<lparr>items := AList.update (str_int (counter st + 1)) item (items st),
           stats := AList.update (str_int (counter st + 1))
                      (Stats_init (str_int (counter st + 1))) (stats st),
           counter := counter st + 1\<rparr>"
    by auto
  then show ?thesis
    by (simp add: handle_stats_def update_conv' Stats_init_def)
qed

lemma step_both_or_none:
  "(items (snd (handle r st)) = items st \<and> stats (snd (handle r st)) = stats st) \<or>
   (\<exists>k item. id_field item = k \<and>
      items (snd (handle r st)) = AList.update k item (items st) \<and>
      stats (snd (handle r st)) = AList.update k (Stats_init k) (stats st))"
proof -
  from handle_cases [of r st] show ?thesis
  proof
    assume "snd (handle r st) = st \<and> created_id (fst (handle r st)) = []"
    then show ?thesis by simp
  next
    assume "\<exists>item. fst (handle r st) = Inr (JsonResponse 201 (ItemP item)) \<and>
      id_field item = str_int (counter st + 1) \<and>
      snd (handle r st) =
        st\<lparr>items := AList.update (str_int (counter st + 1)) item (items st),
           stats := AList.update (str_int (counter st + 1))
                      (Stats_init (str_int (counter st + 1))) (stats st),
           counter := counter st + 1\<rparr>"
    then obtain item where "id_field item = str_int (counter st + 1)"
      "items (snd (handle r st)) = AList.update (str_int (counter st + 1)) item (items st)"
      "stats (snd (handle r st)) =
         AList.update (str_int (counter st + 1)) (Stats_init (str_int (counter st + 1))) (stats st)"
      by force
    then show ?thesis by blast
  qed
qed

lemma serve_ids:
  "created_ids (fst (serve rs st)) = map str_int [counter st + 1..counter (snd (serve rs st))] \<and>
   counter st \<le> counter (snd (serve rs st))"
proof (induction rs arbitrary: st)
  case Nil
  show ?case by (simp add: created_ids_def)
next
  case (Cons r rs)
  let ?st1 = "snd (handle r st)"
  have unf: "created_ids (fst (serve (r # rs) st)) =
      created_id (fst (handle r st)) @ created_ids (fst (serve rs ?st1))"
    "snd (serve (r # rs) st) = snd (serve rs ?st1)"
    by (simp_all add: split_beta Let_def created_ids_def)
  note ih = Cons.IH [of ?st1]
  from handle_cases [of r st] show ?case
  proof
    assume "?st1 = st \<and> created_id (fst (handle r st)) = []"
    with ih unf show ?thesis by simp
  next
    assume "\<exists>item. fst (handle r st) = Inr (JsonResponse 201 (ItemP item)) \<and>
      id_field item = str_int (counter st + 1) \<and>
      ?st1 =
        st\<lparr>items := AList.update (str_int (counter st + 1)) item (items st),
           stats := AList.update (str_int (counter st + 1))
                      (Stats_init (str_int (counter st + 1))) (stats st),
           counter := counter st + 1\<rparr>"
    then obtain item where out: "fst (handle r st) = Inr (JsonResponse 201 (ItemP item))"
      and i: "id_field item = str_int (counter st + 1)"
      and c: "counter ?st1 = counter st + 1"
      by force
    from ih c have le: "counter st + 1 \<le> counter (snd (serve rs ?st1))"
      and rest: "created_ids (fst (serve rs ?st1)) =
        map str_int [counter st + 1 + 1..counter (snd (serve rs ?st1))]"
      by simp_all
    have "[counter st + 1..counter (snd (serve rs ?st1))] =
        (counter st + 1) # [counter st + 1 + 1..counter (snd (serve rs ?st1))]"
      using le by (simp add: upto_rec1)
    with out i rest le show ?thesis
      unfolding unf by simp
  qed
qed

section \<open>The claims about a run of the service\<close>

lemma str_int_1: "str_int 1 = ''1''"
  by code_simp

lemma str_int_2: "str_int 2 = ''2''"
  by code_simp

text \<open>
  C6. Every operation preserves the invariant that each stored item has exactly one
  statistics record, stored under the same id: the storage starts with it, every request
  keeps it, a request either leaves both dicts alone or adds an item and its statistics
  under one key in the same step, and right after a successful create the statistics of
  the new item are there with views, contacts and favorites all 0.
\<close>

theorem stats_companion:
  "store_inv Storage_init \<and>
   (store_inv st \<longrightarrow> store_inv (snd (handle r st))) \<and>
   store_inv (snd (serve rs Storage_init)) \<and>
   (store_inv st \<longrightarrow> (\<forall>(k, item) \<in> set (items st). \<exists>!s. (k, s) \<in> set (stats st))) \<and>
   ((items (snd (handle r st)) = items st \<and> stats (snd (handle r st)) = stats st) \<or>
    (\<exists>k item. id_field item = k \<and>
       items (snd (handle r st)) = AList.update k item (items st) \<and>
       stats (snd (handle r st)) = AList.update k (Stats_init k) (stats st))) \<and>
   (fst (handle r st) = Inr (JsonResponse 201 (ItemP new)) \<longrightarrow>
      handle_stats (id_field new) (snd (handle r st)) =
        JsonResponse 200
          (StatisticsP \<lparr>itemId = id_field new, views = 0, contacts = 0, favorites = 0\<rparr>))"
proof (intro conjI impI)
  show "store_inv Storage_init" by (rule store_inv_init)
  show "store_inv (snd (handle r st))" if "store_inv st"
    using that by (rule store_inv_step)
  show "store_inv (snd (serve rs Storage_init))"
    using store_inv_init by (rule store_inv_serve)
  show "\<forall>(k, item) \<in> set (items st). \<exists>!s. (k, s) \<in> set (stats st)" if "store_inv st"
    using store_inv_one_stats [OF that] by blast
  show "(items (snd (handle r st)) = items st \<and> stats (snd (handle r st)) = stats st) \<or>
    (\<exists>k item. id_field item = k \<and>
       items (snd (handle r st)) = AList.update k item (items st) \<and>
       stats (snd (handle r st)) = AList.update k (Stats_init k) (stats st))"
    by (rule step_both_or_none)
  show "handle_stats (id_field new) (snd (handle r st)) =
        JsonResponse 200
          (StatisticsP \<lparr>itemId = id_field new, views = 0, contacts = 0, favorites = 0\<rparr>)"
    if "fst (handle r st) = Inr (JsonResponse 201 (ItemP new))"
    using that by (rule created_stats)
qed

theorem stats_companion_witness:
  "store_inv Storage_init \<and>
   handle (POST ''/api/1/item'' (Decoded (JObj (sample_payload ''Bike'' 200000))) ''t1'') Storage_init =
     (Inr (JsonResponse 201 (ItemP (sample_item ''1'' ''Bike'' 200000 ''t1''))),
      \<lparr>items = [(''1'', sample_item ''1'' ''Bike'' 200000 ''t1'')],
       stats = [(''1'', Stats_init ''1'')], counter = 1\<rparr>) \<and>
   store_inv \<lparr>items = [(''1'', sample_item ''1'' ''Bike'' 200000 ''t1'')],
              stats = [(''1'', Stats_init ''1'')], counter = 1\<rparr> \<and>
   (\<exists>!s. (''1'', s) \<in> set (stats
       \<lparr>items = [(''1'', sample_item ''1'' ''Bike'' 200000 ''t1'')],
        stats = [(''1'', Stats_init ''1'')], counter = 1\<rparr>)) \<and>
   handle_stats ''1''
     \<lparr>items = [(''1'', sample_item ''1'' ''Bike'' 200000 ''t1'')],
      stats = [(''1'', Stats_init ''1'')], counter = 1\<rparr> =
     JsonResponse 200 (StatisticsP \<lparr>itemId = ''1'', views = 0, contacts = 0, favorites = 0\<rparr>)"
proof -
  let ?r = "POST ''/api/1/item'' (Decoded (JObj (sample_payload ''Bike'' 200000))) ''t1''"
  let ?st = "\<lparr>items = [(''1'', sample_item ''1'' ''Bike'' 200000 ''t1'')],
      stats = [(''1'', Stats_init ''1'')], counter = 1\<rparr>"
  have h: "handle ?r Storage_init =
      (Inr (JsonResponse 201 (ItemP (sample_item ''1'' ''Bike'' 200000 ''t1''))), ?st)"
    by (simp add: do_POST_def rstrip_slash_def handle_create_item_def next_id_def make_item_def
        missing_errors_def title_errors_def description_errors_def price_errors_def
        seller_errors_def dict_get_def Storage_init_def sample_payload_def sample_item_def
        str_int_1)
  have i: "id_field (sample_item ''1'' ''Bike'' 200000 ''t1'') = ''1''"
    by (simp add: sample_item_def)
  from stats_companion [of Storage_init ?r "[]" "sample_item ''1'' ''Bike'' 200000 ''t1''"]
  have a: "store_inv Storage_init" "store_inv ?st"
    and b: "handle_stats ''1'' ?st =
      JsonResponse 200 (StatisticsP \<lparr>itemId = ''1'', views = 0, contacts = 0, favorites = 0\<rparr>)"
    unfolding h by (simp_all add: i)
  from stats_companion [of ?st "GET [] []" "[]"] a
  have "\<forall>(k, item) \<in> set (items ?st). \<exists>!s. (k, s) \<in> set (stats ?st)"
    by blast
  then have c: "\<exists>!s. (''1'', s) \<in> set (stats ?st)"
    by simp
  show ?thesis using h a b c by blast
qed

text \<open>
  C4. The identifiers of the items created in a run that starts from the empty storage
  are the decimal strings of 1, 2, 3, ... in the order of creation, without gap or
  repetition: two of them differ, and the earlier one reads as the smaller integer.
\<close>

theorem ids_sequence:
  assumes "created_ids (fst (serve rs Storage_init)) = ids"
  shows "ids = map str_int [1..int (length ids)] \<and>
     (\<forall>i < length ids. py_int (ids ! i) = Some (int i + 1)) \<and>
     (\<forall>i j. i < j \<and> j < length ids \<longrightarrow>
        ids ! i \<noteq> ids ! j \<and>
        (\<exists>a b. py_int (ids ! i) = Some a \<and> py_int (ids ! j) = Some b \<and> a < b))"
proof -
  let ?n = "counter (snd (serve rs Storage_init))"
  from serve_ids [of rs Storage_init] assms
  have ids: "ids = map str_int [1..?n]" and n: "0 \<le> ?n"
    by (simp_all add: Storage_init_def)
  then have len: "int (length ids) = ?n" by simp
  have nth: "py_int (ids ! i) = Some (int i + 1)" if "i < length ids" for i
  proof -
    from that len have "1 + int i \<le> ?n" by linarith
    then have u: "[1..?n] ! i = 1 + int i" by (rule nth_upto)
    from that ids have "i < length [1..?n]" by simp
    then have "map str_int [1..?n] ! i = str_int ([1..?n] ! i)" by (rule nth_map)
    then have "ids ! i = str_int (1 + int i)" by (simp only: ids [symmetric] u)
    then show ?thesis by (simp add: py_int_str_int)
  qed
  have first: "ids = map str_int [1..int (length ids)]"
    unfolding len by (rule ids)
  have pair: "ids ! i \<noteq> ids ! j \<and>
        (\<exists>a b. py_int (ids ! i) = Some a \<and> py_int (ids ! j) = Some b \<and> a < b)"
    if "i < j" "j < length ids" for i j
  proof -
    from that have i: "py_int (ids ! i) = Some (int i + 1)" and j: "py_int (ids ! j) = Some (int j + 1)"
      using nth by simp_all
    from i j that have "ids ! i \<noteq> ids ! j" by auto
    with i j that show ?thesis by simp
  qed
  from first nth pair show ?thesis by blast
qed


theorem ids_sequence_witness:
  "created_ids (fst (serve
     [POST ''/api/1/item'' (Decoded (JObj (sample_payload ''Bike'' 200000))) ''t1'',
      POST ''/api/1/item'' (Decoded (JObj [])) ''t2'',
      GET ''/api/1/item/1'' [],
      POST ''/api/1/item/'' (Decoded (JObj (sample_payload ''Skis'' 200001))) ''t3'']
     Storage_init)) = [''1'', ''2''] \<and>
   [''1'', ''2''] = map str_int [1..int (length [''1'', ''2''])] \<and>
   py_int ''1'' = Some 1 \<and> py_int ''2'' = Some 2 \<and>
   (0 :: nat) < 1 \<and> 1 < length [''1'', ''2''] \<and> ''1'' \<noteq> ''2'' \<and>
   (\<exists>a b. py_int ''1'' = Some a \<and> py_int ''2'' = Some b \<and> a < b)"
proof -
  have e: "created_ids (fst (serve
     [POST ''/api/1/item'' (Decoded (JObj (sample_payload ''Bike'' 200000))) ''t1'',
      POST ''/api/1/item'' (Decoded (JObj [])) ''t2'',
      GET ''/api/1/item/1'' [],
      POST ''/api/1/item/'' (Decoded (JObj (sample_payload ''Skis'' 200001))) ''t3'']
     Storage_init)) = [''1'', ''2'']"
    by (simp add: created_ids_def do_POST_def rstrip_slash_def handle_create_item_def next_id_def
        make_item_def missing_errors_def title_errors_def description_errors_def price_errors_def
        seller_errors_def dict_get_def Storage_init_def Stats_init_def sample_payload_def
        do_GET_def handle_get_item_def str_int_1 str_int_2)
  note t = ids_sequence [OF e]
  from t have a: "[''1'', ''2''] = map str_int [1..int (length [''1'', ''2''])]" by blast
  have p1: "py_int ''1'' = Some 1"
    using t [THEN conjunct2, THEN conjunct1, rule_format, of 0] by simp
  have p2: "py_int ''2'' = Some 2"
    using t [THEN conjunct2, THEN conjunct1, rule_format, of 1] by simp
  have p: "''1'' \<noteq> ''2'' \<and> (\<exists>a b. py_int ''1'' = Some a \<and> py_int ''2'' = Some b \<and> a < b)"
    using t [THEN conjunct2, THEN conjunct2, rule_format, of 0 1] by simp
  show ?thesis using e a p1 p2 p by simp
qed

end
